theory Spec2Isabelle
  imports Main
begin

section \<open>Data model of the note editor (src/types.ts, src/App.tsx)\<close>

text \<open>
  The editing history of \<^verbatim>\<open>App.tsx\<close>: the \<^verbatim>\<open>Note\<close> interface of
  \<^verbatim>\<open>types.ts\<close>, the \<^verbatim>\<open>NoteSnapshot\<close> and \<^verbatim>\<open>HistoryState\<close> interfaces, and the
  part of the component state the history handlers read and write. The field \<^verbatim>\<open>id\<close> is
  called \<open>note_id\<close> and the state \<^verbatim>\<open>notes\<close> is called \<open>noteList\<close>; the snapshot
  fields carry the prefix \<open>snap_\<close>, since record fields share one name space.
  Time stamps are milliseconds as natural numbers.
\<close>

record Note =
  note_id :: string
  title :: string
  content :: string
  excerpt :: string
  updatedAt :: nat
  createdAt :: nat
  isFavorite :: bool

record NoteSnapshot =
  snap_title :: string
  snap_content :: string

record HistoryState =
  past :: "NoteSnapshot list"
  future :: "NoteSnapshot list"

text \<open>
  \<^verbatim>\<open>Partial<Note>\<close>, the argument of \<^verbatim>\<open>updateNoteState\<close>: every field may be absent.
\<close>

record NoteUpdates =
  upd_id :: "string option"
  upd_title :: "string option"
  upd_content :: "string option"
  upd_excerpt :: "string option"
  upd_updatedAt :: "nat option"
  upd_createdAt :: "nat option"
  upd_isFavorite :: "bool option"

text \<open>
  The state of the component: \<^verbatim>\<open>notes\<close>, \<^verbatim>\<open>selectedNoteId\<close>, the \<^verbatim>\<open>history\<close> map
  (\<^verbatim>\<open>Record<string, HistoryState>\<close>, own properties only) and the single timer slot
  \<^verbatim>\<open>typingTimeoutRef.current\<close>. A pending timer is represented by the time at which
  its callback is due; \<open>None\<close> is \<^verbatim>\<open>null\<close>. \<open>clock\<close> is the reading of
  \<^verbatim>\<open>Date.now()\<close>. Each handler runs on the state of the latest render, so the values
  a handler closes over are the fields of the state it is applied to.
\<close>

record AppState =
  noteList :: "Note list"
  selectedNoteId :: "string option"
  history :: "string \<rightharpoonup> HistoryState"
  typingTimeoutRef :: "nat option"
  clock :: nat

datatype TextKey = KeyTitle | KeyContent

record KeyboardEvent =
  metaKey :: bool
  ctrlKey :: bool
  shiftKey :: bool
  key :: string

section \<open>Operations\<close>

definition noUpdates :: NoteUpdates where
  "noUpdates = \<lparr>upd_id = None, upd_title = None, upd_content = None, upd_excerpt = None,
     upd_updatedAt = None, upd_createdAt = None, upd_isFavorite = None\<rparr>"

definition pick :: "'a \<Rightarrow> 'a option \<Rightarrow> 'a" where
  "pick d v = (case v of None \<Rightarrow> d | Some x \<Rightarrow> x)"

text \<open>The object spread \<^verbatim>\<open>{ ...n, ...updates, updatedAt: Date.now() }\<close>.\<close>

definition spreadNote :: "Note \<Rightarrow> NoteUpdates \<Rightarrow> nat \<Rightarrow> Note" where
  "spreadNote n u t =
     \<lparr>note_id = pick (note_id n) (upd_id u),
      title = pick (title n) (upd_title u),
      content = pick (content n) (upd_content u),
      excerpt = pick (excerpt n) (upd_excerpt u),
      updatedAt = t,
      createdAt = pick (createdAt n) (upd_createdAt u),
      isFavorite = pick (isFavorite n) (upd_isFavorite u)\<rparr>"

text \<open>\<^verbatim>\<open>updateNoteState\<close>: the core update function, which does not touch the history.\<close>

definition updateNoteState :: "string \<Rightarrow> NoteUpdates \<Rightarrow> AppState \<Rightarrow> AppState" where
  "updateNoteState i u s =
     s\<lparr>noteList := map (\<lambda>n. if note_id n = i then spreadNote n u (clock s) else n) (noteList s)\<rparr>"

text \<open>\<^verbatim>\<open>selectedNote = notes.find(n => n.id === selectedNoteId) || null\<close>.\<close>

definition selectedNote :: "AppState \<Rightarrow> Note option" where
  "selectedNote s =
     (case selectedNoteId s of
        None \<Rightarrow> None
      | Some i \<Rightarrow> find (\<lambda>n. note_id n = i) (noteList s))"

text \<open>
  The truth value of \<^verbatim>\<open>selectedNoteId\<close> in a condition: \<^verbatim>\<open>null\<close> and the empty
  string are falsy.
\<close>

definition truthyId :: "string option \<Rightarrow> bool" where
  "truthyId v = (case v of None \<Rightarrow> False | Some i \<Rightarrow> i \<noteq> [])"

text \<open>
  \<^verbatim>\<open>canUndo\<close> and \<^verbatim>\<open>canRedo\<close>; \<^verbatim>\<open>history[id]?.past.length > 0\<close> is false when the
  record is absent.
\<close>

definition canUndo :: "AppState \<Rightarrow> bool" where
  "canUndo s =
     (if truthyId (selectedNoteId s)
      then (case history s (the (selectedNoteId s)) of
              None \<Rightarrow> False
            | Some h \<Rightarrow> length (past h) > 0)
      else False)"

definition canRedo :: "AppState \<Rightarrow> bool" where
  "canRedo s =
     (if truthyId (selectedNoteId s)
      then (case history s (the (selectedNoteId s)) of
              None \<Rightarrow> False
            | Some h \<Rightarrow> length (future h) > 0)
      else False)"

text \<open>
  The effect with dependency \<^verbatim>\<open>[selectedNoteId]\<close>: reset the typing timer when
  switching notes.
\<close>

definition resetTypingTimer :: "AppState \<Rightarrow> AppState" where
  "resetTypingTimer s =
     (if typingTimeoutRef s \<noteq> None then s\<lparr>typingTimeoutRef := None\<rparr> else s)"

text \<open>
  \<^verbatim>\<open>setSelectedNoteId(v)\<close> followed by the render it causes: the effect runs exactly
  when the value of \<^verbatim>\<open>selectedNoteId\<close> has changed.
\<close>

definition setSelectedNoteId :: "string option \<Rightarrow> AppState \<Rightarrow> AppState" where
  "setSelectedNoteId v s =
     (if selectedNoteId s = v then s
      else resetTypingTimer (s\<lparr>selectedNoteId := v\<rparr>))"

text \<open>
  \<^verbatim>\<open>handleDeleteNote\<close>; the answer of \<^verbatim>\<open>window.confirm\<close> is the argument
  \<open>confirmed\<close>.
\<close>

definition handleDeleteNote :: "string \<Rightarrow> bool \<Rightarrow> AppState \<Rightarrow> AppState" where
  "handleDeleteNote i confirmed s =
     (if confirmed then
        let s1 = s\<lparr>noteList := filter (\<lambda>n. note_id n \<noteq> i) (noteList s)\<rparr>;
            s2 = (if selectedNoteId s = Some i then setSelectedNoteId None s1 else s1)
        in s2\<lparr>history := (history s2)(i := None)\<rparr>
      else s)"

text \<open>
  \<^verbatim>\<open>saveToHistory\<close>: push the note's current state before a modification;
  \<^verbatim>\<open>prev[note.id] || { past: [], future: [] }\<close> is \<open>historyOrEmpty\<close>.
\<close>

definition historyOrEmpty :: "(string \<rightharpoonup> HistoryState) \<Rightarrow> string \<Rightarrow> HistoryState" where
  "historyOrEmpty prev i =
     (case prev i of None \<Rightarrow> \<lparr>past = [], future = []\<rparr> | Some h \<Rightarrow> h)"

definition snapshotOf :: "Note \<Rightarrow> NoteSnapshot" where
  "snapshotOf n = \<lparr>snap_title = title n, snap_content = content n\<rparr>"

definition saveToHistory :: "Note \<Rightarrow> AppState \<Rightarrow> AppState" where
  "saveToHistory n s =
     (let noteHistory = historyOrEmpty (history s) (note_id n);
          snapshot = snapshotOf n
      in s\<lparr>history := (history s)(note_id n \<mapsto>
             \<lparr>past = past noteHistory @ [snapshot], future = []\<rparr>)\<rparr>)"

text \<open>
  \<^verbatim>\<open>handleTextChange\<close>: input changes of title or content with debounced history.
  \<^verbatim>\<open>setTimeout(..., 1000)\<close> leaves in the slot a timer due 1000 ms after the current
  clock reading, replacing the one cleared before it.
\<close>

definition QUIET_INTERVAL :: nat where
  "QUIET_INTERVAL = 1000"

definition textUpdates :: "TextKey \<Rightarrow> string \<Rightarrow> Note \<Rightarrow> NoteUpdates" where
  "textUpdates k v n =
     (case k of
        KeyTitle \<Rightarrow> noUpdates\<lparr>upd_title := Some v, upd_excerpt := Some (excerpt n)\<rparr>
      | KeyContent \<Rightarrow> noUpdates\<lparr>upd_content := Some v, upd_excerpt := Some (take 100 v)\<rparr>)"

definition handleTextChange :: "TextKey \<Rightarrow> string \<Rightarrow> AppState \<Rightarrow> AppState" where
  "handleTextChange k v s =
     (case selectedNote s of
        None \<Rightarrow> s
      | Some n \<Rightarrow>
          let s1 = (if typingTimeoutRef s = None then saveToHistory n s else s);
              s2 = s1\<lparr>typingTimeoutRef := Some (clock s1 + QUIET_INTERVAL)\<rparr>
          in updateNoteState (note_id n) (textUpdates k v n) s2)"

definition snapshotUpdates :: "NoteSnapshot \<Rightarrow> NoteUpdates" where
  "snapshotUpdates p = noUpdates\<lparr>upd_title := Some (snap_title p), upd_content := Some (snap_content p)\<rparr>"

definition handleUndo :: "AppState \<Rightarrow> AppState" where
  "handleUndo s =
     (case selectedNote s of
        None \<Rightarrow> s
      | Some n \<Rightarrow>
          (case history s (note_id n) of
             None \<Rightarrow> s
           | Some noteHistory \<Rightarrow>
               if length (past noteHistory) = 0 then s
               else
                 let previous = past noteHistory ! (length (past noteHistory) - 1);
                     newPast = butlast (past noteHistory);
                     currentSnapshot = snapshotOf n;
                     s1 = s\<lparr>history := (history s)(note_id n \<mapsto>
                            \<lparr>past = newPast, future = currentSnapshot # future noteHistory\<rparr>)\<rparr>
                 in updateNoteState (note_id n) (snapshotUpdates previous) s1))"

definition handleRedo :: "AppState \<Rightarrow> AppState" where
  "handleRedo s =
     (case selectedNote s of
        None \<Rightarrow> s
      | Some n \<Rightarrow>
          (case history s (note_id n) of
             None \<Rightarrow> s
           | Some noteHistory \<Rightarrow>
               if length (future noteHistory) = 0 then s
               else
                 let nextSnap = future noteHistory ! 0;
                     newFuture = drop 1 (future noteHistory);
                     currentSnapshot = snapshotOf n;
                     s1 = s\<lparr>history := (history s)(note_id n \<mapsto>
                            \<lparr>past = past noteHistory @ [currentSnapshot], future = newFuture\<rparr>)\<rparr>
                 in updateNoteState (note_id n) (snapshotUpdates nextSnap) s1))"

text \<open>
  \<^verbatim>\<open>handleKeyDown\<close>, the keyboard shortcuts for undo and redo. The comparisons
  \<^verbatim>\<open>e.key === 'z'\<close> and \<^verbatim>\<open>e.key === 'y'\<close> are exact string comparisons. The call
  of \<^verbatim>\<open>e.preventDefault()\<close> acts on the event only and is left out.
\<close>

definition handleKeyDown :: "KeyboardEvent \<Rightarrow> AppState \<Rightarrow> AppState" where
  "handleKeyDown e s =
     (if \<not> truthyId (selectedNoteId s) then s
      else if (metaKey e \<or> ctrlKey e) \<and> key e = ''z'' then
        (if shiftKey e then handleRedo s else handleUndo s)
      else if (metaKey e \<or> ctrlKey e) \<and> key e = ''y'' then handleRedo s
      else s)"

subsection \<open>The timer and the passage of time\<close>

text \<open>
  The callback given to \<^verbatim>\<open>setTimeout\<close> sets the slot to \<^verbatim>\<open>null\<close>. \<open>advanceTo t\<close>
  lets the clock reach \<open>t\<close>: a pending timer whose due time has come has run its
  callback by then, one that is not yet due has not.
\<close>

definition timerCallback :: "AppState \<Rightarrow> AppState" where
  "timerCallback s = s\<lparr>typingTimeoutRef := None\<rparr>"

definition advanceTo :: "nat \<Rightarrow> AppState \<Rightarrow> AppState" where
  "advanceTo t s =
     (let s1 = (case typingTimeoutRef s of
                  None \<Rightarrow> s
                | Some due \<Rightarrow> if due \<le> t then timerCallback s else s)
      in s1\<lparr>clock := t\<rparr>)"

text \<open>A run of edits of the selected note, each at its own time.\<close>

fun runEdits :: "(nat \<times> TextKey \<times> string) list \<Rightarrow> AppState \<Rightarrow> AppState" where
  "runEdits [] s = s"
| "runEdits ((t, k, v) # es) s = runEdits es (handleTextChange k v (advanceTo t s))"

text \<open>Every gap between consecutive times of the list is below \<open>d\<close>.\<close>

fun gapsUnder :: "nat \<Rightarrow> nat list \<Rightarrow> bool" where
  "gapsUnder d [] = True"
| "gapsUnder d [t] = True"
| "gapsUnder d (t # t' # ts) = (t \<le> t' \<and> t' < t + d \<and> gapsUnder d (t' # ts))"

text \<open>The stacks of a document, empty when it has no record.\<close>

definition pastOf :: "AppState \<Rightarrow> string \<Rightarrow> NoteSnapshot list" where
  "pastOf s i = past (historyOrEmpty (history s) i)"

definition futureOf :: "AppState \<Rightarrow> string \<Rightarrow> NoteSnapshot list" where
  "futureOf s i = future (historyOrEmpty (history s) i)"

section \<open>Example states\<close>

text \<open>
  The scenario of the specification: document \<open>doc1\<close> with title \<open>T\<close> and content
  \<open>C\<close>, selected, with no history and no timer pending.
\<close>

definition doc1 :: Note where
  "doc1 = \<lparr>note_id = ''doc1'', title = ''T'', content = ''C'', excerpt = ''C'',
            updatedAt = 0, createdAt = 0, isFavorite = False\<rparr>"

definition freshState :: AppState where
  "freshState = \<lparr>noteList = [doc1], selectedNoteId = Some ''doc1'', history = Map.empty,
                  typingTimeoutRef = None, clock = 0\<rparr>"

text \<open>The state right after the content was edited to \<open>C1\<close> at time 0.\<close>

definition typingState :: AppState where
  "typingState =
     \<lparr>noteList = [doc1\<lparr>content := ''C1'', excerpt := ''C1''\<rparr>],
      selectedNoteId = Some ''doc1'',
      history = [''doc1'' \<mapsto> \<lparr>past = [\<lparr>snap_title = ''T'', snap_content = ''C''\<rparr>], future = []\<rparr>],
      typingTimeoutRef = Some 1000, clock = 0\<rparr>"

text \<open>
  A state with both stacks filled: two edit sessions (to \<open>C1\<close>, then to \<open>C2\<close>)
  followed by one undo.
\<close>

definition midNote :: Note where
  "midNote = doc1\<lparr>content := ''C1'', excerpt := ''C2'', updatedAt := 5000\<rparr>"

definition midHistory :: HistoryState where
  "midHistory = \<lparr>past = [\<lparr>snap_title = ''T'', snap_content = ''C''\<rparr>],
                  future = [\<lparr>snap_title = ''T'', snap_content = ''C2''\<rparr>]\<rparr>"

definition midState :: AppState where
  "midState = \<lparr>noteList = [midNote], selectedNoteId = Some ''doc1'',
                history = [''doc1'' \<mapsto> midHistory], typingTimeoutRef = None, clock = 6000\<rparr>"

text \<open>
  Two key events: Ctrl+Shift+Z with the key value \<open>Z\<close>, and Ctrl+Z with the key
  value \<open>z\<close>.
\<close>

definition ctrlShiftZ :: KeyboardEvent where
  "ctrlShiftZ = \<lparr>metaKey = False, ctrlKey = True, shiftKey = True, key = ''Z''\<rparr>"

definition ctrlLowerZ :: KeyboardEvent where
  "ctrlLowerZ = \<lparr>metaKey = False, ctrlKey = True, shiftKey = False, key = ''z''\<rparr>"

section \<open>Auxiliary facts about the operations\<close>

lemma find_map_same:
  "(\<And>x. P (f x) = P x) \<Longrightarrow> find P (map f xs) = map_option f (find P xs)"
  by (induction xs) auto

lemma find_note_id: "find (\<lambda>m. note_id m = i) ns = Some n \<Longrightarrow> note_id n = i"
  by (induction ns) (auto split: if_splits)

lemma selectedNote_id: "selectedNote s = Some n \<Longrightarrow> selectedNoteId s = Some (note_id n)"
  by (auto simp: selectedNote_def split: option.splits dest: find_note_id)

lemma updateNoteState_fields [simp]:
  "history (updateNoteState i u s) = history s"
  "typingTimeoutRef (updateNoteState i u s) = typingTimeoutRef s"
  "selectedNoteId (updateNoteState i u s) = selectedNoteId s"
  "clock (updateNoteState i u s) = clock s"
  by (simp_all add: updateNoteState_def)

lemma spreadNote_id: "upd_id u = None \<Longrightarrow> note_id (spreadNote n u t) = note_id n"
  by (simp add: spreadNote_def pick_def)

lemma selectedNote_updateNoteState:
  assumes "upd_id u = None" and "selectedNote s = Some n"
  shows "selectedNote (updateNoteState (note_id n) u s) = Some (spreadNote n u (clock s))"
proof -
  let ?f = "\<lambda>m. if note_id m = note_id n then spreadNote m u (clock s) else m"
  have id: "selectedNoteId s = Some (note_id n)" using assms(2) by (rule selectedNote_id)
  have fnd: "find (\<lambda>m. note_id m = note_id n) (noteList s) = Some n"
    using assms(2) id by (simp add: selectedNote_def)
  have "\<And>m. (note_id (?f m) = note_id n) = (note_id m = note_id n)"
    using assms(1) by (simp add: spreadNote_id)
  then have "find (\<lambda>m. note_id m = note_id n) (map ?f (noteList s))
      = map_option ?f (find (\<lambda>m. note_id m = note_id n) (noteList s))"
    by (rule find_map_same)
  then show ?thesis
    using id fnd by (simp add: selectedNote_def updateNoteState_def)
qed

lemma selectedNote_history_change [simp]:
  "selectedNote (s\<lparr>history := h\<rparr>) = selectedNote s"
  "selectedNote (s\<lparr>typingTimeoutRef := r\<rparr>) = selectedNote s"
  "selectedNote (s\<lparr>clock := c\<rparr>) = selectedNote s"
  by (simp_all add: selectedNote_def split: option.splits)

lemma snapshotUpdates_id [simp]: "upd_id (snapshotUpdates p) = None"
  by (simp add: snapshotUpdates_def noUpdates_def)

lemma spread_snapshot:
  "spreadNote n (snapshotUpdates p) t = n\<lparr>title := snap_title p, content := snap_content p, updatedAt := t\<rparr>"
  by (simp add: spreadNote_def snapshotUpdates_def noUpdates_def pick_def)

lemma handleUndo_step:
  assumes "selectedNote s = Some n" "history s (note_id n) = Some h" "past h \<noteq> []"
  shows "handleUndo s = updateNoteState (note_id n) (snapshotUpdates (last (past h)))
           (s\<lparr>history := (history s)(note_id n \<mapsto> \<lparr>past = butlast (past h), future = snapshotOf n # future h\<rparr>)\<rparr>)"
  using assms by (simp add: handleUndo_def Let_def last_conv_nth)

lemma handleRedo_step:
  assumes "selectedNote s = Some n" "history s (note_id n) = Some h" "future h \<noteq> []"
  shows "handleRedo s = updateNoteState (note_id n) (snapshotUpdates (hd (future h)))
           (s\<lparr>history := (history s)(note_id n \<mapsto> \<lparr>past = past h @ [snapshotOf n], future = tl (future h)\<rparr>)\<rparr>)"
  using assms by (simp add: handleRedo_def Let_def hd_conv_nth drop_Suc)

lemma advanceTo_fields [simp]:
  "history (advanceTo t s) = history s"
  "noteList (advanceTo t s) = noteList s"
  "selectedNoteId (advanceTo t s) = selectedNoteId s"
  "clock (advanceTo t s) = t"
  by (simp_all add: advanceTo_def timerCallback_def Let_def split: option.splits)

lemma selectedNote_advanceTo [simp]: "selectedNote (advanceTo t s) = selectedNote s"
  by (simp add: selectedNote_def split: option.splits)

lemma advanceTo_pending:
  "typingTimeoutRef s = Some d \<Longrightarrow> t < d \<Longrightarrow> typingTimeoutRef (advanceTo t s) = Some d"
  by (simp add: advanceTo_def)

lemma advanceTo_due:
  "typingTimeoutRef s = Some d \<Longrightarrow> d \<le> t \<Longrightarrow> typingTimeoutRef (advanceTo t s) = None"
  by (simp add: advanceTo_def timerCallback_def)

lemma textUpdates_id [simp]: "upd_id (textUpdates k v n) = None"
  by (cases k) (simp_all add: textUpdates_def noUpdates_def)

lemma saveToHistory_fields [simp]:
  "noteList (saveToHistory n s) = noteList s"
  "selectedNoteId (saveToHistory n s) = selectedNoteId s"
  "typingTimeoutRef (saveToHistory n s) = typingTimeoutRef s"
  "clock (saveToHistory n s) = clock s"
  by (simp_all add: saveToHistory_def Let_def)

lemma saveToHistory_history:
  "history (saveToHistory n s)
     = (history s)(note_id n \<mapsto> \<lparr>past = pastOf s (note_id n) @ [snapshotOf n], future = []\<rparr>)"
  by (simp add: saveToHistory_def pastOf_def Let_def)

lemma selectedNote_saveToHistory [simp]: "selectedNote (saveToHistory m s) = selectedNote s"
  by (simp add: selectedNote_def split: option.splits)

lemma handleTextChange_start:
  assumes "selectedNote s = Some n" "typingTimeoutRef s = None"
  shows "history (handleTextChange k v s)
           = (history s)(note_id n \<mapsto> \<lparr>past = pastOf s (note_id n) @ [snapshotOf n], future = []\<rparr>)"
    and "typingTimeoutRef (handleTextChange k v s) = Some (clock s + QUIET_INTERVAL)"
    and "selectedNote (handleTextChange k v s) = Some (spreadNote n (textUpdates k v n) (clock s))"
    and "clock (handleTextChange k v s) = clock s"
  using assms
  by (simp_all add: handleTextChange_def Let_def saveToHistory_history selectedNote_updateNoteState)

lemma handleTextChange_continue:
  assumes "selectedNote s = Some n" "typingTimeoutRef s = Some d"
  shows "history (handleTextChange k v s) = history s"
    and "typingTimeoutRef (handleTextChange k v s) = Some (clock s + QUIET_INTERVAL)"
    and "selectedNote (handleTextChange k v s) = Some (spreadNote n (textUpdates k v n) (clock s))"
    and "clock (handleTextChange k v s) = clock s"
  using assms
  by (simp_all add: handleTextChange_def Let_def selectedNote_updateNoteState)

lemma runEdits_continue:
  "selectedNote s = Some n \<Longrightarrow> typingTimeoutRef s = Some (t0 + QUIET_INTERVAL)
     \<Longrightarrow> gapsUnder QUIET_INTERVAL (t0 # map fst es)
     \<Longrightarrow> history (runEdits es s) = history s"
proof (induction es arbitrary: s n t0)
  case Nil
  then show ?case by simp
next
  case (Cons e es)
  obtain t k v where e: "e = (t, k, v)" by (cases e)
  let ?a = "advanceTo t s"
  let ?s' = "handleTextChange k v ?a"
  from Cons.prems(3) e have lt: "t < t0 + QUIET_INTERVAL" and rest: "gapsUnder QUIET_INTERVAL (t # map fst es)"
    by simp_all
  have pend: "typingTimeoutRef ?a = Some (t0 + QUIET_INTERVAL)"
    using Cons.prems(2) lt by (rule advanceTo_pending)
  have sel: "selectedNote ?a = Some n" using Cons.prems(1) by simp
  have h: "history ?s' = history s"
    using handleTextChange_continue(1)[OF sel pend] by simp
  have tm: "typingTimeoutRef ?s' = Some (t + QUIET_INTERVAL)"
    using handleTextChange_continue(2)[OF sel pend] by simp
  have sn: "selectedNote ?s' = Some (spreadNote n (textUpdates k v n) t)"
    using handleTextChange_continue(3)[OF sel pend] by simp
  have "history (runEdits es ?s') = history ?s'"
    using sn tm rest by (rule Cons.IH)
  then show ?case using h e by simp
qed

lemma handleUndo_timer: "typingTimeoutRef (handleUndo s) = typingTimeoutRef s"
  by (simp add: handleUndo_def Let_def split: option.splits)

lemma handleRedo_timer: "typingTimeoutRef (handleRedo s) = typingTimeoutRef s"
  by (simp add: handleRedo_def Let_def split: option.splits)

lemma setSelectedNoteId_fields [simp]:
  "history (setSelectedNoteId v s) = history s"
  "noteList (setSelectedNoteId v s) = noteList s"
  "selectedNoteId (setSelectedNoteId v s) = v"
  "clock (setSelectedNoteId v s) = clock s"
  by (simp_all add: setSelectedNoteId_def resetTypingTimer_def)

lemma midState_selected: "selectedNote midState = Some midNote"
  by (simp add: midState_def midNote_def doc1_def selectedNote_def)

lemma midNote_id: "note_id midNote = ''doc1''"
  by (simp add: midNote_def doc1_def)

lemma midState_history: "history midState (note_id midNote) = Some midHistory"
  by (simp add: midState_def midNote_id)

lemma midHistory_stacks:
  "past midHistory = [\<lparr>snap_title = ''T'', snap_content = ''C''\<rparr>]"
  "future midHistory = [\<lparr>snap_title = ''T'', snap_content = ''C2''\<rparr>]"
  by (simp_all add: midHistory_def)

lemma freshState_selected: "selectedNote freshState = Some doc1"
  by (simp add: freshState_def doc1_def selectedNote_def)

lemma typingState_selected:
  "selectedNote typingState = Some (doc1\<lparr>content := ''C1'', excerpt := ''C1''\<rparr>)"
  by (simp add: typingState_def doc1_def selectedNote_def)

lemma midState_history_doc1: "history midState ''doc1'' = Some midHistory"
  by (simp add: midState_def)

lemma canUndo_selected:
  assumes "selectedNote s = Some n" "canUndo s"
  obtains h where "history s (note_id n) = Some h" "past h \<noteq> []"
proof -
  have "selectedNoteId s = Some (note_id n)" using assms(1) by (rule selectedNote_id)
  with assms(2) show thesis
    by (auto simp: canUndo_def truthyId_def split: if_splits option.splits intro: that)
qed

lemma canRedo_selected:
  assumes "selectedNote s = Some n" "canRedo s"
  obtains h where "history s (note_id n) = Some h" "future h \<noteq> []"
proof -
  have "selectedNoteId s = Some (note_id n)" using assms(1) by (rule selectedNote_id)
  with assms(2) show thesis
    by (auto simp: canRedo_def truthyId_def split: if_splits option.splits intro: that)
qed

lemma snapshotOf_restored:
  "snapshotOf (n\<lparr>title := snap_title p, content := snap_content p, updatedAt := t\<rparr>) = p"
  by (simp add: snapshotOf_def)

lemma restore_own_snapshot:
  "m\<lparr>title := snap_title (snapshotOf n), content := snap_content (snapshotOf n), updatedAt := t\<rparr>
     = m\<lparr>title := title n, content := content n, updatedAt := t\<rparr>"
  by (simp add: snapshotOf_def)

lemma undo_then_redo:
  assumes sel: "selectedNote s = Some n" and rec: "history s (note_id n) = Some h"
    and ne: "past h \<noteq> []"
  shows "history (handleRedo (advanceTo t (handleUndo s))) = history s"
    and "selectedNote (handleRedo (advanceTo t (handleUndo s))) = Some (n\<lparr>updatedAt := t\<rparr>)"
proof -
  let ?p = "last (past h)"
  let ?h1 = "\<lparr>past = butlast (past h), future = snapshotOf n # future h\<rparr>"
  let ?n1 = "n\<lparr>title := snap_title ?p, content := snap_content ?p, updatedAt := clock s\<rparr>"
  let ?a = "advanceTo t (handleUndo s)"
  have st: "handleUndo s = updateNoteState (note_id n) (snapshotUpdates ?p)
              (s\<lparr>history := (history s)(note_id n \<mapsto> ?h1)\<rparr>)"
    using sel rec ne by (rule handleUndo_step)
  have h1: "history ?a = (history s)(note_id n \<mapsto> ?h1)"
    by (simp add: st)
  have n1: "selectedNote ?a = Some ?n1"
    using sel by (simp add: st selectedNote_updateNoteState spread_snapshot)
  have rec1: "history ?a (note_id ?n1) = Some ?h1"
    using h1 by simp
  have ne1: "future ?h1 \<noteq> []" by simp
  have rd: "handleRedo ?a = updateNoteState (note_id ?n1) (snapshotUpdates (hd (future ?h1)))
              (?a\<lparr>history := (history ?a)(note_id ?n1 \<mapsto>
                 \<lparr>past = past ?h1 @ [snapshotOf ?n1], future = tl (future ?h1)\<rparr>)\<rparr>)"
    using n1 rec1 ne1 by (rule handleRedo_step)
  have same: "\<lparr>past = past ?h1 @ [snapshotOf ?n1], future = tl (future ?h1)\<rparr> = h"
    using ne by (simp add: snapshotOf_restored)
  show "history (handleRedo ?a) = history s"
    unfolding rd same using rec h1 by (simp add: map_upd_triv)
  let ?u = "snapshotUpdates (hd (future ?h1))"
  let ?b = "?a\<lparr>history := (history ?a)(note_id ?n1 \<mapsto>
                 \<lparr>past = past ?h1 @ [snapshotOf ?n1], future = tl (future ?h1)\<rparr>)\<rparr>"
  have selb: "selectedNote ?b = Some ?n1" using n1 by simp
  have "selectedNote (handleRedo ?a) = selectedNote (updateNoteState (note_id ?n1) ?u ?b)"
    by (simp only: rd)
  also have "\<dots> = Some (spreadNote ?n1 ?u (clock ?b))"
    using snapshotUpdates_id selb by (rule selectedNote_updateNoteState)
  also have "\<dots> = Some (n\<lparr>updatedAt := t\<rparr>)"
    by (simp add: spread_snapshot snapshotOf_def)
  finally show "selectedNote (handleRedo ?a) = Some (n\<lparr>updatedAt := t\<rparr>)" .
qed

lemma redo_then_undo:
  assumes sel: "selectedNote s = Some n" and rec: "history s (note_id n) = Some h"
    and ne: "future h \<noteq> []"
  shows "history (handleUndo (advanceTo t (handleRedo s))) = history s"
    and "selectedNote (handleUndo (advanceTo t (handleRedo s))) = Some (n\<lparr>updatedAt := t\<rparr>)"
proof -
  let ?p = "hd (future h)"
  let ?h1 = "\<lparr>past = past h @ [snapshotOf n], future = tl (future h)\<rparr>"
  let ?n1 = "n\<lparr>title := snap_title ?p, content := snap_content ?p, updatedAt := clock s\<rparr>"
  let ?a = "advanceTo t (handleRedo s)"
  have st: "handleRedo s = updateNoteState (note_id n) (snapshotUpdates ?p)
              (s\<lparr>history := (history s)(note_id n \<mapsto> ?h1)\<rparr>)"
    using sel rec ne by (rule handleRedo_step)
  have h1: "history ?a = (history s)(note_id n \<mapsto> ?h1)"
    by (simp add: st)
  have n1: "selectedNote ?a = Some ?n1"
    using sel by (simp add: st selectedNote_updateNoteState spread_snapshot)
  have rec1: "history ?a (note_id ?n1) = Some ?h1"
    using h1 by simp
  have ne1: "past ?h1 \<noteq> []" by simp
  have ud: "handleUndo ?a = updateNoteState (note_id ?n1) (snapshotUpdates (last (past ?h1)))
              (?a\<lparr>history := (history ?a)(note_id ?n1 \<mapsto>
                 \<lparr>past = butlast (past ?h1), future = snapshotOf ?n1 # future ?h1\<rparr>)\<rparr>)"
    using n1 rec1 ne1 by (rule handleUndo_step)
  have same: "\<lparr>past = butlast (past ?h1), future = snapshotOf ?n1 # future ?h1\<rparr> = h"
    using ne by (simp add: snapshotOf_restored)
  show "history (handleUndo ?a) = history s"
    unfolding ud same using rec h1 by (simp add: map_upd_triv)
  let ?u = "snapshotUpdates (last (past ?h1))"
  let ?b = "?a\<lparr>history := (history ?a)(note_id ?n1 \<mapsto>
                 \<lparr>past = butlast (past ?h1), future = snapshotOf ?n1 # future ?h1\<rparr>)\<rparr>"
  have selb: "selectedNote ?b = Some ?n1" using n1 by simp
  have "selectedNote (handleUndo ?a) = selectedNote (updateNoteState (note_id ?n1) ?u ?b)"
    by (simp only: ud)
  also have "\<dots> = Some (spreadNote ?n1 ?u (clock ?b))"
    using snapshotUpdates_id selb by (rule selectedNote_updateNoteState)
  also have "\<dots> = Some (n\<lparr>updatedAt := t\<rparr>)"
    by (simp add: spread_snapshot snapshotOf_def)
  finally show "selectedNote (handleUndo ?a) = Some (n\<lparr>updatedAt := t\<rparr>)" .
qed

lemma handleUndo_future:
  "length (futureOf s i) \<le> length (futureOf (handleUndo s) i)"
  by (simp add: handleUndo_def futureOf_def historyOrEmpty_def Let_def split: option.splits)

lemma handleRedo_future:
  "futureOf (handleRedo s) i = futureOf s i \<or> futureOf (handleRedo s) i = tl (futureOf s i)"
  by (auto simp: handleRedo_def futureOf_def historyOrEmpty_def Let_def drop_Suc split: option.splits)

lemma midState_can: "canUndo midState" "canRedo midState"
  by (simp_all add: canUndo_def canRedo_def truthyId_def midState_def midHistory_def)

lemma pastOf_advanceTo [simp]: "pastOf (advanceTo t s) i = pastOf s i"
  by (simp add: pastOf_def)

lemma pastOf_upd: "history s' = (history s)(i \<mapsto> h) \<Longrightarrow> pastOf s' i = past h"
  by (simp add: pastOf_def historyOrEmpty_def)

lemma first_edit:
  assumes sel: "selectedNote s = Some n" and idle: "typingTimeoutRef (advanceTo t s) = None"
  shows "history (handleTextChange k v (advanceTo t s))
           = (history s)(note_id n \<mapsto> \<lparr>past = pastOf s (note_id n) @ [snapshotOf n], future = []\<rparr>)"
    and "typingTimeoutRef (handleTextChange k v (advanceTo t s)) = Some (t + QUIET_INTERVAL)"
    and "selectedNote (handleTextChange k v (advanceTo t s)) = Some (spreadNote n (textUpdates k v n) t)"
proof -
  have sel': "selectedNote (advanceTo t s) = Some n" using sel by simp
  show "history (handleTextChange k v (advanceTo t s))
           = (history s)(note_id n \<mapsto> \<lparr>past = pastOf s (note_id n) @ [snapshotOf n], future = []\<rparr>)"
    using handleTextChange_start(1)[OF sel' idle] by simp
  show "typingTimeoutRef (handleTextChange k v (advanceTo t s)) = Some (t + QUIET_INTERVAL)"
    using handleTextChange_start(2)[OF sel' idle] by simp
  show "selectedNote (handleTextChange k v (advanceTo t s)) = Some (spreadNote n (textUpdates k v n) t)"
    using handleTextChange_start(3)[OF sel' idle] by simp
qed

lemma one_session:
  assumes sel: "selectedNote s = Some n" and idle: "typingTimeoutRef (advanceTo t s) = None"
    and gaps: "gapsUnder QUIET_INTERVAL (t # map fst es)"
  shows "history (runEdits ((t, k, v) # es) s)
           = (history s)(note_id n \<mapsto> \<lparr>past = pastOf s (note_id n) @ [snapshotOf n], future = []\<rparr>)"
proof -
  let ?s1 = "handleTextChange k v (advanceTo t s)"
  have "history (runEdits es ?s1) = history ?s1"
    using first_edit(3)[OF sel idle] first_edit(2)[OF sel idle] gaps by (rule runEdits_continue)
  then show ?thesis
    using first_edit(1)[OF sel idle] by simp
qed

lemma two_sessions:
  assumes sel: "selectedNote s = Some n" and idle: "typingTimeoutRef (advanceTo t s) = None"
    and gap: "t + QUIET_INTERVAL < t'"
  shows "history (runEdits [(t, k, v), (t', k', v')] s)
           = (history s)(note_id n \<mapsto>
               \<lparr>past = pastOf s (note_id n) @ [snapshotOf n, snapshotOf (spreadNote n (textUpdates k v n) t)],
                future = []\<rparr>)"
proof -
  let ?s1 = "handleTextChange k v (advanceTo t s)"
  let ?n1 = "spreadNote n (textUpdates k v n) t"
  have id1: "note_id ?n1 = note_id n" by (simp add: spreadNote_id)
  have sel1: "selectedNote ?s1 = Some ?n1" using sel idle by (rule first_edit(3))
  have tm1: "typingTimeoutRef ?s1 = Some (t + QUIET_INTERVAL)" using sel idle by (rule first_edit(2))
  have h1: "history ?s1
      = (history s)(note_id n \<mapsto> \<lparr>past = pastOf s (note_id n) @ [snapshotOf n], future = []\<rparr>)"
    using sel idle by (rule first_edit(1))
  have p1: "pastOf ?s1 (note_id n) = pastOf s (note_id n) @ [snapshotOf n]"
    using h1 by (simp add: pastOf_upd)
  have idle1: "typingTimeoutRef (advanceTo t' ?s1) = None"
    using tm1 gap by (simp add: advanceTo_due)
  have "history (handleTextChange k' v' (advanceTo t' ?s1))
      = (history ?s1)(note_id ?n1 \<mapsto> \<lparr>past = pastOf ?s1 (note_id ?n1) @ [snapshotOf ?n1], future = []\<rparr>)"
    using sel1 idle1 by (rule first_edit(1))
  then show ?thesis
    by (simp add: id1 p1 h1)
qed

lemma freshState_idle: "typingTimeoutRef (advanceTo t freshState) = None"
  by (simp add: advanceTo_def freshState_def)

lemma freshState_past: "pastOf freshState i = []"
  by (simp add: pastOf_def historyOrEmpty_def freshState_def)

lemma fold_setSelectedNoteId_history: "history (fold setSelectedNoteId ws s) = history s"
  by (induction ws arbitrary: s) simp_all

lemma setSelectedNoteId_timer:
  "selectedNoteId s \<noteq> w \<Longrightarrow> typingTimeoutRef (setSelectedNoteId w s) = None"
  by (simp add: setSelectedNoteId_def resetTypingTimer_def)

lemma handleUndo_noop:
  "selectedNote s = Some n \<Longrightarrow> pastOf s (note_id n) = [] \<Longrightarrow> handleUndo s = s"
  by (simp add: handleUndo_def pastOf_def historyOrEmpty_def split: option.splits)

lemma handleRedo_noop:
  "selectedNote s = Some n \<Longrightarrow> futureOf s (note_id n) = [] \<Longrightarrow> handleRedo s = s"
  by (simp add: handleRedo_def futureOf_def historyOrEmpty_def split: option.splits)

lemma canUndo_iff:
  "selectedNoteId s = Some i \<Longrightarrow> truthyId (selectedNoteId s) \<Longrightarrow> canUndo s = (pastOf s i \<noteq> [])"
  by (simp add: canUndo_def pastOf_def historyOrEmpty_def split: option.splits)

lemma canRedo_iff:
  "selectedNoteId s = Some i \<Longrightarrow> truthyId (selectedNoteId s) \<Longrightarrow> canRedo s = (futureOf s i \<noteq> [])"
  by (simp add: canRedo_def futureOf_def historyOrEmpty_def split: option.splits)

lemma freshState_future: "futureOf freshState i = []"
  by (simp add: futureOf_def historyOrEmpty_def freshState_def)

lemma canUndo_absent: "history s i = None \<Longrightarrow> selectedNoteId s = Some i \<Longrightarrow> \<not> canUndo s"
  by (simp add: canUndo_def)

lemma canRedo_absent: "history s i = None \<Longrightarrow> selectedNoteId s = Some i \<Longrightarrow> \<not> canRedo s"
  by (simp add: canRedo_def)

lemma canUndo_unselected: "selectedNoteId s = None \<Longrightarrow> \<not> canUndo s"
  by (simp add: canUndo_def truthyId_def)

lemma canRedo_unselected: "selectedNoteId s = None \<Longrightarrow> \<not> canRedo s"
  by (simp add: canRedo_def truthyId_def)

lemma handleDeleteNote_history:
  "history (handleDeleteNote i c s) = (if c then (history s)(i := None) else history s)"
  by (simp add: handleDeleteNote_def Let_def)

lemma handleDeleteNote_selected:
  "selectedNoteId s = Some i \<Longrightarrow> selectedNoteId (handleDeleteNote i True s) = None"
  by (simp add: handleDeleteNote_def Let_def)

lemma handleUndo_effect:
  assumes "selectedNote s = Some n" "history s (note_id n) = Some h" "past h \<noteq> []"
  shows "history (handleUndo s)
           = (history s)(note_id n \<mapsto> \<lparr>past = butlast (past h), future = snapshotOf n # future h\<rparr>)"
    and "selectedNote (handleUndo s)
           = Some (n\<lparr>title := snap_title (last (past h)), content := snap_content (last (past h)),
                     updatedAt := clock s\<rparr>)"
    and "selectedNoteId (handleUndo s) = selectedNoteId s"
  using assms by (simp_all add: handleUndo_step selectedNote_updateNoteState spread_snapshot)

lemma handleRedo_effect:
  assumes "selectedNote s = Some n" "history s (note_id n) = Some h" "future h \<noteq> []"
  shows "history (handleRedo s)
           = (history s)(note_id n \<mapsto> \<lparr>past = past h @ [snapshotOf n], future = tl (future h)\<rparr>)"
    and "selectedNote (handleRedo s)
           = Some (n\<lparr>title := snap_title (hd (future h)), content := snap_content (hd (future h)),
                     updatedAt := clock s\<rparr>)"
    and "selectedNoteId (handleRedo s) = selectedNoteId s"
  using assms by (simp_all add: handleRedo_step selectedNote_updateNoteState spread_snapshot)

lemma typingState_reached: "runEdits [(0, KeyContent, ''C1'')] freshState = typingState"
  by (simp add: typingState_def freshState_def doc1_def handleTextChange_def advanceTo_def
      selectedNote_def saveToHistory_def historyOrEmpty_def snapshotOf_def updateNoteState_def
      spreadNote_def textUpdates_def noUpdates_def pick_def QUIET_INTERVAL_def Let_def)

lemma updateNoteState_snapshot:
  "noteList (updateNoteState i (snapshotUpdates p) s)
     = map (\<lambda>m. if note_id m = i
                 then m\<lparr>title := snap_title p, content := snap_content p, updatedAt := clock s\<rparr>
                 else m) (noteList s)"
  by (simp add: updateNoteState_def spread_snapshot)

lemma selectedNote_handleTextChange:
  assumes "selectedNote s = Some n"
  shows "selectedNote (handleTextChange k v s) = Some (spreadNote n (textUpdates k v n) (clock s))"
proof (cases "typingTimeoutRef s")
  case None
  with assms show ?thesis by (rule handleTextChange_start(3))
next
  case (Some d)
  with assms show ?thesis by (rule handleTextChange_continue(3))
qed

lemma excerpt_textUpdates:
  "excerpt (spreadNote n (textUpdates KeyContent v n) t) = take 100 v"
  "excerpt (spreadNote n (textUpdates KeyTitle v n) t) = excerpt n"
  by (simp_all add: spreadNote_def textUpdates_def noUpdates_def pick_def)

lemma typingState_history:
  "history typingState ''doc1''
     = Some \<lparr>past = [\<lparr>snap_title = ''T'', snap_content = ''C''\<rparr>], future = []\<rparr>"
  by (simp add: typingState_def)

lemma typingState_id: "note_id (doc1\<lparr>content := ''C1'', excerpt := ''C1''\<rparr>) = ''doc1''"
  by (simp add: doc1_def)

lemma typingState_undone:
  "selectedNote (handleUndo typingState)
     = Some (doc1\<lparr>content := ''C'', excerpt := ''C1''\<rparr>)"
proof -
  let ?n = "doc1\<lparr>content := ''C1'', excerpt := ''C1''\<rparr>"
  let ?h = "\<lparr>past = [\<lparr>snap_title = ''T'', snap_content = ''C''\<rparr>], future = []\<rparr>"
  have rec: "history typingState (note_id ?n) = Some ?h"
    by (simp only: typingState_id typingState_history)
  have ne: "past ?h \<noteq> []" by simp
  have "selectedNote (handleUndo typingState)
      = Some (?n\<lparr>title := snap_title (last (past ?h)), content := snap_content (last (past ?h)),
                  updatedAt := clock typingState\<rparr>)"
    using typingState_selected rec ne by (rule handleUndo_effect(2))
  then show ?thesis
    by (simp add: typingState_def doc1_def)
qed

lemma handleKeyDown_lowercase:
  assumes "truthyId (selectedNoteId s)" "metaKey e \<or> ctrlKey e"
  shows "key e = ''z'' \<Longrightarrow> \<not> shiftKey e \<Longrightarrow> handleKeyDown e s = handleUndo s"
    and "key e = ''z'' \<Longrightarrow> shiftKey e \<Longrightarrow> handleKeyDown e s = handleRedo s"
    and "key e = ''y'' \<Longrightarrow> handleKeyDown e s = handleRedo s"
  using assms by (auto simp: handleKeyDown_def)

lemma handleKeyDown_other_key:
  "key e \<noteq> ''z'' \<Longrightarrow> key e \<noteq> ''y'' \<Longrightarrow> handleKeyDown e s = s"
  by (simp add: handleKeyDown_def)

lemma ctrlLowerZ_undoes: "handleKeyDown ctrlLowerZ midState = handleUndo midState"
  by (simp add: handleKeyDown_def ctrlLowerZ_def truthyId_def midState_def)

section \<open>Undo and redo as stack transitions\<close>

text \<open>
  Claim C1. When the selected document has a history record with a non-empty past, undo
  takes the last entry of the past as the restored snapshot, puts the snapshot of the
  current title and content at the front of the future, and writes the restored
  snapshot into the document: the stack lengths go from \<open>(p, f)\<close> to
  \<open>(p - 1, f + 1)\<close>. When the future is non-empty, redo takes its first entry, puts
  the current snapshot at the end of the past, and writes the entry into the document:
  the lengths go from \<open>(p, f)\<close> to \<open>(p + 1, f - 1)\<close>.
\<close>

theorem undo_redo_transitions:
  "(selectedNote s = Some n \<and> history s (note_id n) = Some h \<and> past h \<noteq> [] \<longrightarrow>
      history (handleUndo s) (note_id n)
        = Some \<lparr>past = butlast (past h), future = snapshotOf n # future h\<rparr>
    \<and> selectedNote (handleUndo s)
        = Some (n\<lparr>title := snap_title (last (past h)), content := snap_content (last (past h)),
                  updatedAt := clock s\<rparr>)
    \<and> length (past (historyOrEmpty (history (handleUndo s)) (note_id n))) = length (past h) - 1
    \<and> length (future (historyOrEmpty (history (handleUndo s)) (note_id n))) = length (future h) + 1)
 \<and> (selectedNote s = Some n \<and> history s (note_id n) = Some h \<and> future h \<noteq> [] \<longrightarrow>
      history (handleRedo s) (note_id n)
        = Some \<lparr>past = past h @ [snapshotOf n], future = tl (future h)\<rparr>
    \<and> selectedNote (handleRedo s)
        = Some (n\<lparr>title := snap_title (hd (future h)), content := snap_content (hd (future h)),
                  updatedAt := clock s\<rparr>)
    \<and> length (past (historyOrEmpty (history (handleRedo s)) (note_id n))) = length (past h) + 1
    \<and> length (future (historyOrEmpty (history (handleRedo s)) (note_id n))) = length (future h) - 1)"
proof (intro conjI impI)
  assume a: "selectedNote s = Some n \<and> history s (note_id n) = Some h \<and> past h \<noteq> []"
  then have st: "handleUndo s = updateNoteState (note_id n) (snapshotUpdates (last (past h)))
           (s\<lparr>history := (history s)(note_id n \<mapsto> \<lparr>past = butlast (past h), future = snapshotOf n # future h\<rparr>)\<rparr>)"
    by (simp add: handleUndo_step)
  show "history (handleUndo s) (note_id n)
        = Some \<lparr>past = butlast (past h), future = snapshotOf n # future h\<rparr>"
    by (simp add: st)
  show "selectedNote (handleUndo s)
        = Some (n\<lparr>title := snap_title (last (past h)), content := snap_content (last (past h)),
                  updatedAt := clock s\<rparr>)"
    using a by (simp add: st selectedNote_updateNoteState spread_snapshot)
  show "length (past (historyOrEmpty (history (handleUndo s)) (note_id n))) = length (past h) - 1"
    by (simp add: st historyOrEmpty_def)
  show "length (future (historyOrEmpty (history (handleUndo s)) (note_id n))) = length (future h) + 1"
    by (simp add: st historyOrEmpty_def)
next
  assume a: "selectedNote s = Some n \<and> history s (note_id n) = Some h \<and> future h \<noteq> []"
  then have st: "handleRedo s = updateNoteState (note_id n) (snapshotUpdates (hd (future h)))
           (s\<lparr>history := (history s)(note_id n \<mapsto> \<lparr>past = past h @ [snapshotOf n], future = tl (future h)\<rparr>)\<rparr>)"
    by (simp add: handleRedo_step)
  show "history (handleRedo s) (note_id n)
        = Some \<lparr>past = past h @ [snapshotOf n], future = tl (future h)\<rparr>"
    by (simp add: st)
  show "selectedNote (handleRedo s)
        = Some (n\<lparr>title := snap_title (hd (future h)), content := snap_content (hd (future h)),
                  updatedAt := clock s\<rparr>)"
    using a by (simp add: st selectedNote_updateNoteState spread_snapshot)
  show "length (past (historyOrEmpty (history (handleRedo s)) (note_id n))) = length (past h) + 1"
    by (simp add: st historyOrEmpty_def)
  show "length (future (historyOrEmpty (history (handleRedo s)) (note_id n))) = length (future h) - 1"
    by (simp add: st historyOrEmpty_def)
qed

theorem undo_redo_transitions_witness:
  "(selectedNote midState = Some midNote \<and> history midState (note_id midNote) = Some midHistory
      \<and> past midHistory \<noteq> [] \<and> future midHistory \<noteq> [])
   \<and> history (handleUndo midState) ''doc1''
       = Some \<lparr>past = [], future = [\<lparr>snap_title = ''T'', snap_content = ''C1''\<rparr>,
                                     \<lparr>snap_title = ''T'', snap_content = ''C2''\<rparr>]\<rparr>
   \<and> selectedNote (handleUndo midState) = Some (midNote\<lparr>content := ''C'', updatedAt := 6000\<rparr>)
   \<and> history (handleRedo midState) ''doc1''
       = Some \<lparr>past = [\<lparr>snap_title = ''T'', snap_content = ''C''\<rparr>,
                        \<lparr>snap_title = ''T'', snap_content = ''C1''\<rparr>], future = []\<rparr>
   \<and> selectedNote (handleRedo midState) = Some (midNote\<lparr>content := ''C2'', updatedAt := 6000\<rparr>)"
  using undo_redo_transitions [of midState midNote midHistory]
  by (simp add: midState_selected midState_history midHistory_stacks midNote_id snapshotOf_def)
     (simp add: midNote_def doc1_def midState_def)

section \<open>Pushing a snapshot and the redo stack\<close>

text \<open>
  Claim C2. The push at the start of an edit session (\<^verbatim>\<open>saveToHistory\<close>) appends the
  snapshot of the note before the edit to the end of that document's past and sets that
  document's future to empty, leaving the records of other documents alone. No other
  operation empties a future: undo never shortens the future of any document, redo
  leaves it as it is or removes exactly its first entry (the one it restores), and a
  change of the selected document leaves every future unchanged. In particular, after an
  undo, which leaves the future non-empty, an edit that starts a session (no timer
  pending when it arrives) empties the future.
\<close>

theorem push_clears_future:
  "history (saveToHistory n s) (note_id n)
     = Some \<lparr>past = pastOf s (note_id n) @ [snapshotOf n], future = []\<rparr>
   \<and> (i \<noteq> note_id n \<longrightarrow> history (saveToHistory n s) i = history s i)
   \<and> length (futureOf s i) \<le> length (futureOf (handleUndo s) i)
   \<and> (futureOf (handleRedo s) i = futureOf s i \<or> futureOf (handleRedo s) i = tl (futureOf s i))
   \<and> futureOf (setSelectedNoteId w s) i = futureOf s i
   \<and> (selectedNote s = Some n \<and> history s (note_id n) = Some h \<and> past h \<noteq> []
        \<and> typingTimeoutRef (advanceTo t (handleUndo s)) = None \<longrightarrow>
          futureOf (handleUndo s) (note_id n) = snapshotOf n # future h
        \<and> futureOf (handleTextChange k v (advanceTo t (handleUndo s))) (note_id n) = [])"
proof (intro conjI impI)
  show "history (saveToHistory n s) (note_id n)
     = Some \<lparr>past = pastOf s (note_id n) @ [snapshotOf n], future = []\<rparr>"
    by (simp add: saveToHistory_history)
  show "history (saveToHistory n s) i = history s i" if "i \<noteq> note_id n"
    using that by (simp add: saveToHistory_history)
  show "length (futureOf s i) \<le> length (futureOf (handleUndo s) i)"
    by (rule handleUndo_future)
  show "futureOf (handleRedo s) i = futureOf s i \<or> futureOf (handleRedo s) i = tl (futureOf s i)"
    by (rule handleRedo_future)
  show "futureOf (setSelectedNoteId w s) i = futureOf s i"
    by (simp add: futureOf_def)
next
  assume a: "selectedNote s = Some n \<and> history s (note_id n) = Some h \<and> past h \<noteq> []
        \<and> typingTimeoutRef (advanceTo t (handleUndo s)) = None"
  let ?u = "handleUndo s"
  let ?p = "last (past h)"
  let ?n1 = "n\<lparr>title := snap_title ?p, content := snap_content ?p, updatedAt := clock s\<rparr>"
  have st: "?u = updateNoteState (note_id n) (snapshotUpdates ?p)
      (s\<lparr>history := (history s)(note_id n \<mapsto>
           \<lparr>past = butlast (past h), future = snapshotOf n # future h\<rparr>)\<rparr>)"
    using a by (simp add: handleUndo_step)
  show "futureOf ?u (note_id n) = snapshotOf n # future h"
    by (simp add: st futureOf_def historyOrEmpty_def)
  have sel: "selectedNote (advanceTo t ?u) = Some ?n1"
    using a by (simp add: st selectedNote_updateNoteState spread_snapshot)
  have idle: "typingTimeoutRef (advanceTo t ?u) = None" using a by simp
  have "history (handleTextChange k v (advanceTo t ?u)) (note_id ?n1)
          = Some \<lparr>past = pastOf (advanceTo t ?u) (note_id ?n1) @ [snapshotOf ?n1], future = []\<rparr>"
    using handleTextChange_start(1)[OF sel idle] by simp
  then show "futureOf (handleTextChange k v (advanceTo t ?u)) (note_id n) = []"
    by (simp add: futureOf_def historyOrEmpty_def)
qed

theorem push_clears_future_witness:
  "(selectedNote midState = Some midNote \<and> history midState (note_id midNote) = Some midHistory
      \<and> past midHistory \<noteq> [] \<and> typingTimeoutRef (advanceTo 7000 (handleUndo midState)) = None
      \<and> ''other'' \<noteq> note_id midNote)
   \<and> history (saveToHistory midNote midState) ''other'' = history midState ''other''
   \<and> futureOf (handleUndo midState) ''doc1''
        = [\<lparr>snap_title = ''T'', snap_content = ''C1''\<rparr>, \<lparr>snap_title = ''T'', snap_content = ''C2''\<rparr>]
   \<and> futureOf (handleTextChange KeyContent ''C3'' (advanceTo 7000 (handleUndo midState))) ''doc1'' = []"
proof -
  have idle: "typingTimeoutRef (advanceTo 7000 (handleUndo midState)) = None"
    by (simp add: advanceTo_def handleUndo_timer midState_def)
  have snap: "snapshotOf midNote = \<lparr>snap_title = ''T'', snap_content = ''C1''\<rparr>"
    by (simp add: snapshotOf_def midNote_def doc1_def)
  show ?thesis
    using push_clears_future [of midNote midState "''other''" None midHistory 7000 KeyContent "''C3''"]
    by (simp add: midState_selected midState_history_doc1 midHistory_stacks midNote_id idle snap)
qed

section \<open>Undo and redo are mutual inverses\<close>

text \<open>
  Claim C3. When the selected document can be undone (\<^verbatim>\<open>canUndo\<close>), undo followed by
  redo at any later time \<open>t\<close> leaves the history map exactly as it was before the
  undo and the document exactly as it was, title and content included, apart from its
  modification time stamp, which is \<open>t\<close>. When it can be redone, redo followed by
  undo does the same.
\<close>

theorem undo_redo_inverse:
  "(selectedNote s = Some n \<and> canUndo s \<longrightarrow>
      history (handleRedo (advanceTo t (handleUndo s))) = history s
    \<and> selectedNote (handleRedo (advanceTo t (handleUndo s))) = Some (n\<lparr>updatedAt := t\<rparr>))
 \<and> (selectedNote s = Some n \<and> canRedo s \<longrightarrow>
      history (handleUndo (advanceTo t (handleRedo s))) = history s
    \<and> selectedNote (handleUndo (advanceTo t (handleRedo s))) = Some (n\<lparr>updatedAt := t\<rparr>))"
proof (intro conjI impI)
  assume a: "selectedNote s = Some n \<and> canUndo s"
  then obtain h where h: "history s (note_id n) = Some h" "past h \<noteq> []"
    by (blast elim: canUndo_selected)
  from a h show "history (handleRedo (advanceTo t (handleUndo s))) = history s"
    by (simp add: undo_then_redo(1))
  from a h show "selectedNote (handleRedo (advanceTo t (handleUndo s))) = Some (n\<lparr>updatedAt := t\<rparr>)"
    by (simp add: undo_then_redo(2))
next
  assume a: "selectedNote s = Some n \<and> canRedo s"
  then obtain h where h: "history s (note_id n) = Some h" "future h \<noteq> []"
    by (blast elim: canRedo_selected)
  from a h show "history (handleUndo (advanceTo t (handleRedo s))) = history s"
    by (simp add: redo_then_undo(1))
  from a h show "selectedNote (handleUndo (advanceTo t (handleRedo s))) = Some (n\<lparr>updatedAt := t\<rparr>)"
    by (simp add: redo_then_undo(2))
qed

theorem undo_redo_inverse_witness:
  "(selectedNote midState = Some midNote \<and> canUndo midState \<and> canRedo midState)
   \<and> history (handleRedo (advanceTo 7000 (handleUndo midState))) = history midState
   \<and> selectedNote (handleRedo (advanceTo 7000 (handleUndo midState)))
       = Some (midNote\<lparr>updatedAt := 7000\<rparr>)
   \<and> history (handleUndo (advanceTo 7000 (handleRedo midState))) = history midState
   \<and> selectedNote (handleUndo (advanceTo 7000 (handleRedo midState)))
       = Some (midNote\<lparr>updatedAt := 7000\<rparr>)"
  using undo_redo_inverse [of midState midNote 7000]
  by (simp add: midState_selected midState_can)

section \<open>Edit sessions and the quiet interval\<close>

text \<open>
  Claim C4. Take a run of \<open>N \<ge> 1\<close> edits of the selected document that begins a
  session (no timer is pending when the first edit arrives). If every gap between
  consecutive edits is under the quiet interval of 1000 ms, exactly one snapshot, that of
  the document before the first edit, is pushed to its past, whatever \<open>N\<close> is. If two
  edits are more than the quiet interval apart, so that the timer fires between them, two
  snapshots are pushed: the document before the first edit and the document before the
  second.
\<close>

theorem session_coalescing_and_splitting:
  "(selectedNote s = Some n \<and> typingTimeoutRef (advanceTo t s) = None
      \<and> gapsUnder QUIET_INTERVAL (t # map fst es) \<longrightarrow>
        history (runEdits ((t, k, v) # es) s)
          = (history s)(note_id n \<mapsto> \<lparr>past = pastOf s (note_id n) @ [snapshotOf n], future = []\<rparr>)
      \<and> length (pastOf (runEdits ((t, k, v) # es) s) (note_id n)) = length (pastOf s (note_id n)) + 1)
 \<and> (selectedNote s = Some n \<and> typingTimeoutRef (advanceTo t s) = None
      \<and> t + QUIET_INTERVAL < t' \<longrightarrow>
        history (runEdits [(t, k, v), (t', k', v')] s)
          = (history s)(note_id n \<mapsto>
              \<lparr>past = pastOf s (note_id n)
                        @ [snapshotOf n, snapshotOf (spreadNote n (textUpdates k v n) t)],
               future = []\<rparr>)
      \<and> length (pastOf (runEdits [(t, k, v), (t', k', v')] s) (note_id n))
          = length (pastOf s (note_id n)) + 2)"
proof (intro conjI impI)
  assume a: "selectedNote s = Some n \<and> typingTimeoutRef (advanceTo t s) = None
      \<and> gapsUnder QUIET_INTERVAL (t # map fst es)"
  have h: "history (runEdits ((t, k, v) # es) s)
          = (history s)(note_id n \<mapsto> \<lparr>past = pastOf s (note_id n) @ [snapshotOf n], future = []\<rparr>)"
    using a one_session [of s n t es k v] by blast
  show "history (runEdits ((t, k, v) # es) s)
          = (history s)(note_id n \<mapsto> \<lparr>past = pastOf s (note_id n) @ [snapshotOf n], future = []\<rparr>)"
    by (rule h)
  show "length (pastOf (runEdits ((t, k, v) # es) s) (note_id n)) = length (pastOf s (note_id n)) + 1"
    using pastOf_upd[OF h] by simp
next
  assume a: "selectedNote s = Some n \<and> typingTimeoutRef (advanceTo t s) = None
      \<and> t + QUIET_INTERVAL < t'"
  have h: "history (runEdits [(t, k, v), (t', k', v')] s)
          = (history s)(note_id n \<mapsto>
              \<lparr>past = pastOf s (note_id n)
                        @ [snapshotOf n, snapshotOf (spreadNote n (textUpdates k v n) t)],
               future = []\<rparr>)"
    using a two_sessions [of s n t t' k v k' v'] by blast
  show "history (runEdits [(t, k, v), (t', k', v')] s)
          = (history s)(note_id n \<mapsto>
              \<lparr>past = pastOf s (note_id n)
                        @ [snapshotOf n, snapshotOf (spreadNote n (textUpdates k v n) t)],
               future = []\<rparr>)"
    by (rule h)
  show "length (pastOf (runEdits [(t, k, v), (t', k', v')] s) (note_id n))
          = length (pastOf s (note_id n)) + 2"
    using pastOf_upd[OF h] by simp
qed

theorem session_coalescing_and_splitting_witness:
  "(selectedNote freshState = Some doc1 \<and> typingTimeoutRef (advanceTo 0 freshState) = None
     \<and> gapsUnder QUIET_INTERVAL (0 # map fst [(400, KeyContent, ''C2''), (900, KeyTitle, ''T2'')])
     \<and> (0::nat) + QUIET_INTERVAL < 1500)
   \<and> pastOf (runEdits [(0, KeyContent, ''C1''), (400, KeyContent, ''C2''), (900, KeyTitle, ''T2'')]
               freshState) ''doc1''
       = [\<lparr>snap_title = ''T'', snap_content = ''C''\<rparr>]
   \<and> pastOf (runEdits [(0, KeyContent, ''C1''), (1500, KeyContent, ''C2'')] freshState) ''doc1''
       = [\<lparr>snap_title = ''T'', snap_content = ''C''\<rparr>, \<lparr>snap_title = ''T'', snap_content = ''C1''\<rparr>]"
proof -
  have gaps: "gapsUnder QUIET_INTERVAL (0 # map fst [(400, KeyContent, ''C2''), (900, KeyTitle, ''T2'')])"
    by (simp add: QUIET_INTERVAL_def)
  have gap: "(0::nat) + QUIET_INTERVAL < 1500"
    by (simp add: QUIET_INTERVAL_def)
  have id: "note_id doc1 = ''doc1''" by (simp add: doc1_def)
  have snap0: "snapshotOf doc1 = \<lparr>snap_title = ''T'', snap_content = ''C''\<rparr>"
    by (simp add: snapshotOf_def doc1_def)
  have snap1: "snapshotOf (spreadNote doc1 (textUpdates KeyContent ''C1'' doc1) 0)
      = \<lparr>snap_title = ''T'', snap_content = ''C1''\<rparr>"
    by (simp add: snapshotOf_def spreadNote_def textUpdates_def noUpdates_def pick_def doc1_def)
  have one: "pastOf (runEdits [(0, KeyContent, ''C1''), (400, KeyContent, ''C2''), (900, KeyTitle, ''T2'')]
               freshState) ''doc1'' = [\<lparr>snap_title = ''T'', snap_content = ''C''\<rparr>]"
    and two: "pastOf (runEdits [(0, KeyContent, ''C1''), (1500, KeyContent, ''C2'')] freshState) ''doc1''
       = [\<lparr>snap_title = ''T'', snap_content = ''C''\<rparr>, \<lparr>snap_title = ''T'', snap_content = ''C1''\<rparr>]"
    using session_coalescing_and_splitting [of freshState doc1 0
        "[(400, KeyContent, ''C2''), (900, KeyTitle, ''T2'')]" KeyContent "''C1''" 1500 KeyContent "''C2''"]
      freshState_selected freshState_idle gaps gap
    by (simp_all add: pastOf_upd id snap0 snap1 freshState_past)
  show ?thesis
    using freshState_selected freshState_idle gaps gap one two by simp
qed

section \<open>Undo, redo and the typing timer\<close>

text \<open>
  Claim C5 says that every undo and every redo cancels a pending typing timer first, so
  that the slot is \<^verbatim>\<open>null\<close> afterwards and the next keystroke starts a fresh session
  with a new push. \<^verbatim>\<open>handleUndo\<close> and \<^verbatim>\<open>handleRedo\<close> do not touch the slot
  (\<open>handleUndo_timer\<close>, \<open>handleRedo_timer\<close>). The run below shows the effect: the
  content is edited to \<open>C1\<close> at time 0, undone at time 200 and edited to \<open>Cx\<close> at
  time 400. The timer set at time 0 is still pending after the undo, and after a redo as
  well; the edit at time 400 therefore pushes nothing and does not empty the future,
  which still holds \<open>C1\<close>, and the state \<open>C\<close> that was on screen before that edit
  is in neither stack: undo is not available.
\<close>

theorem undo_leaves_timer_pending:
  "typingTimeoutRef (advanceTo 200 typingState) = Some 1000
   \<and> typingTimeoutRef (handleUndo (advanceTo 200 typingState)) = Some 1000
   \<and> typingTimeoutRef (handleRedo (advanceTo 300 (handleUndo (advanceTo 200 typingState)))) = Some 1000
   \<and> history (handleUndo (advanceTo 200 typingState)) ''doc1''
       = Some \<lparr>past = [], future = [\<lparr>snap_title = ''T'', snap_content = ''C1''\<rparr>]\<rparr>
   \<and> history (handleTextChange KeyContent ''Cx'' (advanceTo 400 (handleUndo (advanceTo 200 typingState))))
        ''doc1''
       = Some \<lparr>past = [], future = [\<lparr>snap_title = ''T'', snap_content = ''C1''\<rparr>]\<rparr>
   \<and> \<not> canUndo (handleTextChange KeyContent ''Cx''
                   (advanceTo 400 (handleUndo (advanceTo 200 typingState))))"
proof -
  let ?n = "doc1\<lparr>content := ''C1'', excerpt := ''C1''\<rparr>"
  let ?h = "\<lparr>past = [\<lparr>snap_title = ''T'', snap_content = ''C''\<rparr>], future = []\<rparr>"
  let ?a = "advanceTo 200 typingState"
  let ?u = "handleUndo ?a"
  let ?e = "handleTextChange KeyContent ''Cx'' (advanceTo 400 ?u)"
  have pend: "typingTimeoutRef ?a = Some 1000"
    by (simp add: advanceTo_def typingState_def)
  have sel: "selectedNote ?a = Some ?n" by (simp add: typingState_selected)
  have "history ?a ''doc1'' = Some ?h" by (simp add: typingState_history)
  then have rec: "history ?a (note_id ?n) = Some ?h" by (simp only: typingState_id)
  have ne: "past ?h \<noteq> []" by simp
  have pend': "typingTimeoutRef ?u = Some 1000"
    using pend by (simp add: handleUndo_timer)
  have "history ?u = (history ?a)(note_id ?n \<mapsto>
          \<lparr>past = butlast (past ?h), future = snapshotOf ?n # future ?h\<rparr>)"
    using sel rec ne by (rule handleUndo_effect(1))
  then have hu: "history ?u ''doc1''
      = Some \<lparr>past = [], future = [\<lparr>snap_title = ''T'', snap_content = ''C1''\<rparr>]\<rparr>"
    by (simp add: snapshotOf_def doc1_def)
  have "selectedNote ?u = Some (?n\<lparr>title := snap_title (last (past ?h)),
          content := snap_content (last (past ?h)), updatedAt := clock ?a\<rparr>)"
    using sel rec ne by (rule handleUndo_effect(2))
  then have selu: "selectedNote (advanceTo 400 ?u) = Some (?n\<lparr>title := snap_title (last (past ?h)),
          content := snap_content (last (past ?h)), updatedAt := clock ?a\<rparr>)"
    by (simp only: selectedNote_advanceTo)
  have pend400: "typingTimeoutRef (advanceTo 400 ?u) = Some 1000"
    using pend' by (simp add: advanceTo_pending)
  have pendr: "typingTimeoutRef (handleRedo (advanceTo 300 ?u)) = Some 1000"
    using pend' by (simp add: handleRedo_timer advanceTo_pending)
  have he: "history ?e = history ?u"
    using handleTextChange_continue(1)[OF selu pend400] by simp
  have "selectedNoteId ?u = selectedNoteId ?a"
    using sel rec ne by (rule handleUndo_effect(3))
  then have side: "selectedNoteId ?e = Some ''doc1''"
    by (simp add: handleTextChange_def Let_def typingState_def split: option.splits)
  have nc: "\<not> canUndo ?e"
    using side he hu by (simp add: canUndo_def)
  show ?thesis
    using pend pend' pendr hu he nc by simp
qed

section \<open>Changing the selected document\<close>

text \<open>
  Claim C6. When the selected document changes, the effect that depends on
  \<^verbatim>\<open>selectedNoteId\<close> leaves the timer slot empty, and nothing is pushed: the history
  map and the notes are the same after the change as before it. The history map is
  unchanged after any number of changes of selection.
\<close>

theorem focus_change_keeps_history:
  "(selectedNoteId s \<noteq> w \<longrightarrow> typingTimeoutRef (setSelectedNoteId w s) = None)
   \<and> history (setSelectedNoteId w s) = history s
   \<and> noteList (setSelectedNoteId w s) = noteList s
   \<and> history (fold setSelectedNoteId ws s) = history s"
  by (simp add: setSelectedNoteId_timer fold_setSelectedNoteId_history)

theorem focus_change_keeps_history_witness:
  "(selectedNoteId typingState \<noteq> Some ''doc2'' \<and> typingTimeoutRef typingState = Some 1000)
   \<and> typingTimeoutRef (setSelectedNoteId (Some ''doc2'') typingState) = None
   \<and> history (setSelectedNoteId (Some ''doc2'') typingState) = history typingState
   \<and> history (fold setSelectedNoteId [Some ''doc2'', None, Some ''doc1''] typingState)
       = history typingState"
  using focus_change_keeps_history [of typingState "Some ''doc2''" "[Some ''doc2'', None, Some ''doc1'']"]
  by (simp add: typingState_def)

section \<open>Undo and redo with an empty stack\<close>

text \<open>
  Claim C7. Undo on a selected document whose past is empty (or that has no record) and
  redo on one whose future is empty return the state they were given: title, content
  and both stacks are unchanged. While a document is selected, \<^verbatim>\<open>canUndo\<close> holds
  exactly when its past is non-empty and \<^verbatim>\<open>canRedo\<close> exactly when its future is
  non-empty; selected means that \<^verbatim>\<open>selectedNoteId\<close> is truthy, as the code tests it.
\<close>

theorem idle_noops:
  "(selectedNote s = Some n \<and> pastOf s (note_id n) = [] \<longrightarrow> handleUndo s = s)
   \<and> (selectedNote s = Some n \<and> futureOf s (note_id n) = [] \<longrightarrow> handleRedo s = s)
   \<and> (selectedNoteId s = Some i \<and> truthyId (selectedNoteId s) \<longrightarrow>
         canUndo s = (pastOf s i \<noteq> []) \<and> canRedo s = (futureOf s i \<noteq> []))"
  by (auto simp: handleUndo_noop handleRedo_noop canUndo_iff canRedo_iff)

theorem idle_noops_witness:
  "(selectedNote freshState = Some doc1 \<and> pastOf freshState (note_id doc1) = []
      \<and> futureOf freshState (note_id doc1) = []
      \<and> selectedNoteId freshState = Some ''doc1'' \<and> truthyId (selectedNoteId freshState))
   \<and> handleUndo freshState = freshState \<and> handleRedo freshState = freshState
   \<and> \<not> canUndo freshState \<and> \<not> canRedo freshState"
proof -
  have sid: "selectedNoteId freshState = Some ''doc1''" "truthyId (selectedNoteId freshState)"
    by (simp_all add: freshState_def truthyId_def)
  show ?thesis
    using idle_noops [of freshState doc1 "''doc1''"] freshState_selected sid
    by (simp add: freshState_past freshState_future)
qed

section \<open>Deleting a document removes its history\<close>

text \<open>
  Claim C8. After a confirmed \<^verbatim>\<open>handleDeleteNote\<close> of document \<open>i\<close> the history map
  has no record for \<open>i\<close>; \<^verbatim>\<open>canUndo\<close> and \<^verbatim>\<open>canRedo\<close> are false for \<open>i\<close>,
  both when \<open>i\<close> is selected again afterwards and, if \<open>i\<close> was the selected
  document, right after the deletion. Deleting a document that has no record leaves
  the history map as it is, and the records of other documents are never affected.
\<close>

theorem delete_purges_history:
  "history (handleDeleteNote i True s) i = None
   \<and> \<not> canUndo (setSelectedNoteId (Some i) (handleDeleteNote i True s))
   \<and> \<not> canRedo (setSelectedNoteId (Some i) (handleDeleteNote i True s))
   \<and> (selectedNoteId s = Some i \<longrightarrow>
         \<not> canUndo (handleDeleteNote i True s) \<and> \<not> canRedo (handleDeleteNote i True s))
   \<and> (history s i = None \<longrightarrow> history (handleDeleteNote i c s) = history s)
   \<and> (j \<noteq> i \<longrightarrow> history (handleDeleteNote i c s) j = history s j)"
proof (intro conjI impI)
  let ?d = "handleDeleteNote i True s"
  show gone: "history ?d i = None"
    by (simp add: handleDeleteNote_history)
  have "history (setSelectedNoteId (Some i) ?d) i = None" using gone by simp
  moreover have "selectedNoteId (setSelectedNoteId (Some i) ?d) = Some i" by simp
  ultimately show "\<not> canUndo (setSelectedNoteId (Some i) ?d)"
    and "\<not> canRedo (setSelectedNoteId (Some i) ?d)"
    by (rule canUndo_absent, rule canRedo_absent)
  show "\<not> canUndo ?d" if "selectedNoteId s = Some i"
    using that by (simp add: handleDeleteNote_selected canUndo_unselected)
  show "\<not> canRedo ?d" if "selectedNoteId s = Some i"
    using that by (simp add: handleDeleteNote_selected canRedo_unselected)
  show "history (handleDeleteNote i c s) = history s" if "history s i = None"
    using that by (auto simp: handleDeleteNote_history)
  show "history (handleDeleteNote i c s) j = history s j" if "j \<noteq> i"
    using that by (simp add: handleDeleteNote_history)
qed

theorem delete_purges_history_witness:
  "(selectedNoteId midState = Some ''doc1'' \<and> canUndo midState \<and> canRedo midState
      \<and> history midState ''other'' = None \<and> ''doc1'' \<noteq> ''other'')
   \<and> history (handleDeleteNote ''doc1'' True midState) ''doc1'' = None
   \<and> \<not> canUndo (handleDeleteNote ''doc1'' True midState)
   \<and> \<not> canRedo (handleDeleteNote ''doc1'' True midState)
   \<and> history (handleDeleteNote ''other'' True midState) = history midState
   \<and> history (handleDeleteNote ''other'' True midState) ''doc1'' = Some midHistory"
proof -
  have sid: "selectedNoteId midState = Some ''doc1''" and abs: "history midState ''other'' = None"
    by (simp_all add: midState_def)
  show ?thesis
    using delete_purges_history [of "''doc1''" midState True "''other''"]
      delete_purges_history [of "''other''" midState True "''doc1''"]
      sid abs midState_can
    by (simp add: midState_history_doc1)
qed

section \<open>The keyboard shortcuts\<close>

text \<open>
  Claim C9 says that, while a document is selected, the modifier with Z triggers undo
  and the modifier with Shift+Z or with Y triggers redo. The handler compares
  \<^verbatim>\<open>e.key\<close> with the lower-case letters: on those it dispatches as claimed
  (\<open>handleKeyDown_lowercase\<close>), and on every other key value it does nothing
  (\<open>handleKeyDown_other_key\<close>). The event below is Ctrl+Shift+Z with the key value
  \<open>Z\<close>, the letter as Shift produces it: with a document selected and redo available
  the handler returns the state unchanged, where \<^verbatim>\<open>handleRedo\<close> would have emptied the
  future.
\<close>

theorem uppercase_key_is_ignored:
  "truthyId (selectedNoteId midState) \<and> canRedo midState
   \<and> handleKeyDown ctrlShiftZ midState = midState
   \<and> futureOf (handleKeyDown ctrlShiftZ midState) ''doc1'' = [\<lparr>snap_title = ''T'', snap_content = ''C2''\<rparr>]
   \<and> futureOf (handleRedo midState) ''doc1'' = []"
proof -
  have tr: "truthyId (selectedNoteId midState)"
    by (simp add: truthyId_def midState_def)
  have ig: "handleKeyDown ctrlShiftZ midState = midState"
    by (simp add: handleKeyDown_other_key ctrlShiftZ_def)
  have f0: "futureOf midState ''doc1'' = [\<lparr>snap_title = ''T'', snap_content = ''C2''\<rparr>]"
    by (simp add: futureOf_def historyOrEmpty_def midState_history_doc1 midHistory_stacks)
  have rd: "handleRedo midState = updateNoteState (note_id midNote) (snapshotUpdates (hd (future midHistory)))
      (midState\<lparr>history := (history midState)(note_id midNote \<mapsto>
          \<lparr>past = past midHistory @ [snapshotOf midNote], future = tl (future midHistory)\<rparr>)\<rparr>)"
    using midState_selected midState_history by (rule handleRedo_step) (simp add: midHistory_stacks)
  have f1: "futureOf (handleRedo midState) ''doc1'' = []"
    unfolding rd by (simp add: futureOf_def historyOrEmpty_def midNote_id midHistory_stacks)
  show ?thesis
    using tr ig f0 f1 midState_can(2) by simp
qed

section \<open>The excerpt is not restored\<close>

text \<open>
  Claim C10. Undo and redo change only the title, the content and the modification time
  stamp of the notes with the selected identifier; every other note and every other
  field stays, so the excerpt of the selected note is the one it had before. Only an
  edit of the content recomputes the excerpt, as the first 100 characters of the new
  content; an edit of the title keeps it. After an undo the excerpt can therefore
  differ from the first 100 characters of the restored content: undoing the edit of
  \<open>C\<close> to \<open>C1\<close> leaves content \<open>C\<close> with excerpt \<open>C1\<close>.
\<close>

theorem restore_keeps_excerpt:
  "(selectedNote s = Some n \<and> history s (note_id n) = Some h \<and> past h \<noteq> [] \<longrightarrow>
      noteList (handleUndo s)
        = map (\<lambda>m. if note_id m = note_id n
                    then m\<lparr>title := snap_title (last (past h)),
                           content := snap_content (last (past h)), updatedAt := clock s\<rparr>
                    else m) (noteList s)
    \<and> (\<exists>m. selectedNote (handleUndo s) = Some m \<and> excerpt m = excerpt n))
 \<and> (selectedNote s = Some n \<and> history s (note_id n) = Some h \<and> future h \<noteq> [] \<longrightarrow>
      noteList (handleRedo s)
        = map (\<lambda>m. if note_id m = note_id n
                    then m\<lparr>title := snap_title (hd (future h)),
                           content := snap_content (hd (future h)), updatedAt := clock s\<rparr>
                    else m) (noteList s)
    \<and> (\<exists>m. selectedNote (handleRedo s) = Some m \<and> excerpt m = excerpt n))
 \<and> (selectedNote s = Some n \<longrightarrow>
      (\<exists>m. selectedNote (handleTextChange KeyContent v s) = Some m \<and> excerpt m = take 100 v)
    \<and> (\<exists>m. selectedNote (handleTextChange KeyTitle v s) = Some m \<and> excerpt m = excerpt n))
 \<and> (\<exists>m. selectedNote (handleUndo typingState) = Some m \<and> excerpt m \<noteq> take 100 (content m))"
proof (intro conjI impI)
  assume a: "selectedNote s = Some n \<and> history s (note_id n) = Some h \<and> past h \<noteq> []"
  then have st: "handleUndo s = updateNoteState (note_id n) (snapshotUpdates (last (past h)))
           (s\<lparr>history := (history s)(note_id n \<mapsto>
               \<lparr>past = butlast (past h), future = snapshotOf n # future h\<rparr>)\<rparr>)"
    by (simp add: handleUndo_step)
  show "noteList (handleUndo s)
        = map (\<lambda>m. if note_id m = note_id n
                    then m\<lparr>title := snap_title (last (past h)),
                           content := snap_content (last (past h)), updatedAt := clock s\<rparr>
                    else m) (noteList s)"
    by (simp add: st updateNoteState_snapshot)
  show "\<exists>m. selectedNote (handleUndo s) = Some m \<and> excerpt m = excerpt n"
    using a by (simp add: st selectedNote_updateNoteState spread_snapshot)
next
  assume a: "selectedNote s = Some n \<and> history s (note_id n) = Some h \<and> future h \<noteq> []"
  then have st: "handleRedo s = updateNoteState (note_id n) (snapshotUpdates (hd (future h)))
           (s\<lparr>history := (history s)(note_id n \<mapsto>
               \<lparr>past = past h @ [snapshotOf n], future = tl (future h)\<rparr>)\<rparr>)"
    by (simp add: handleRedo_step)
  show "noteList (handleRedo s)
        = map (\<lambda>m. if note_id m = note_id n
                    then m\<lparr>title := snap_title (hd (future h)),
                           content := snap_content (hd (future h)), updatedAt := clock s\<rparr>
                    else m) (noteList s)"
    by (simp add: st updateNoteState_snapshot)
  show "\<exists>m. selectedNote (handleRedo s) = Some m \<and> excerpt m = excerpt n"
    using a by (simp add: st selectedNote_updateNoteState spread_snapshot)
next
  assume a: "selectedNote s = Some n"
  show "\<exists>m. selectedNote (handleTextChange KeyContent v s) = Some m \<and> excerpt m = take 100 v"
    using a by (simp add: selectedNote_handleTextChange excerpt_textUpdates)
  show "\<exists>m. selectedNote (handleTextChange KeyTitle v s) = Some m \<and> excerpt m = excerpt n"
    using a by (simp add: selectedNote_handleTextChange excerpt_textUpdates)
next
  show "\<exists>m. selectedNote (handleUndo typingState) = Some m \<and> excerpt m \<noteq> take 100 (content m)"
    by (simp add: typingState_undone doc1_def)
qed

theorem restore_keeps_excerpt_witness:
  "(selectedNote midState = Some midNote \<and> history midState (note_id midNote) = Some midHistory
      \<and> past midHistory \<noteq> [] \<and> future midHistory \<noteq> [])
   \<and> noteList (handleUndo midState) = [midNote\<lparr>content := ''C'', updatedAt := 6000\<rparr>]
   \<and> noteList (handleRedo midState) = [midNote\<lparr>content := ''C2'', updatedAt := 6000\<rparr>]
   \<and> (\<exists>m. selectedNote (handleUndo midState) = Some m \<and> excerpt m = ''C2'')
   \<and> (\<exists>m. selectedNote (handleTextChange KeyContent ''C3'' midState) = Some m \<and> excerpt m = ''C3'')"
proof -
  have nl: "noteList midState = [midNote]" "clock midState = 6000"
    by (simp_all add: midState_def)
  have ex: "excerpt midNote = ''C2''" "title midNote = ''T''"
    by (simp_all add: midNote_def doc1_def)
  show ?thesis
    using restore_keeps_excerpt [of midState midNote midHistory "''C3''"]
    by (simp add: midState_selected midState_history midHistory_stacks nl ex)
qed

end
